theory Spec2Isabelle
  imports Complex_Main "HOL-Library.Multiset" "HOL-Library.Char_ord" "HOL-Library.List_Lexorder"
begin

section \<open>Credential store: workers/lib/user-service.ts\<close>

text \<open>
  The \<open>User\<close> interface of user-service.ts. The optional fields \<open>createdAt?\<close> and
  \<open>displayName?\<close> are options.
\<close>

datatype role = Reader | Contributor

record User =
  username :: string
  passwordHash :: string
  role :: role
  user_createdAt :: "string option"
  displayName :: "string option"

text \<open>
  A JavaScript string is a sequence of UTF-16 code units. The model holds the strings
  whose code units are below 256, that is the characters of Basic Latin and of the
  Latin-1 Supplement (U+0000 to U+00FF), with one \<open>char\<close> per code unit (not UTF-8
  bytes): \<open>CHR 0xC5\<close> is the letter A with ring, \<open>CHR 0xDF\<close> the sharp s.

  \<open>String.prototype.toLowerCase\<close> follows the Unicode case mapping. On these
  characters it moves \<open>A\<close> to \<open>Z\<close> (65 to 90) and the capital letters of Latin-1
  (192 to 222, without the multiplication sign 215) to the code point 32 higher, and
  keeps every other character, the sharp s (223) among them.
\<close>

definition toLowerChar :: "char \<Rightarrow> char" where
  "toLowerChar c =
     (let n = (of_char c :: nat)
      in if (65 \<le> n \<and> n \<le> 90) \<or> (192 \<le> n \<and> n \<le> 222 \<and> n \<noteq> 215)
         then char_of (n + 32) else c)"

definition toLowerCase :: "string \<Rightarrow> string" where
  "toLowerCase s = map toLowerChar s"

text \<open>
  \<open>findUserByUsername\<close>: the static array \<open>users\<close> (loaded from users.json, which is
  data and not code) is a parameter. \<open>Array.prototype.find\<close> returns the first match;
  \<open>user || null\<close> turns no match into \<open>null\<close>, here \<open>None\<close>.
\<close>

definition findUserByUsername :: "User list \<Rightarrow> string \<Rightarrow> User option" where
  "findUserByUsername users uname =
     (let normalizedUsername = toLowerCase uname
      in find (\<lambda>u. toLowerCase (username u) = normalizedUsername) users)"

definition userExists :: "User list \<Rightarrow> string \<Rightarrow> bool" where
  "userExists users uname = (findUserByUsername users uname \<noteq> None)"

text \<open>
  The data-model invariant of the credential store: usernames are unique up to letter
  case.
\<close>

definition usernamesUnique :: "User list \<Rightarrow> bool" where
  "usernamesUnique users = distinct (map (\<lambda>u. toLowerCase (username u)) users)"

text \<open>
  \<open>String.prototype.toUpperCase\<close> on the same characters, for the casings of a
  username: \<open>a\<close> to \<open>z\<close> (97 to 122) and the small letters of Latin-1 (224 to 254,
  without the division sign 247) move to the code point 32 lower; the sharp s (223)
  becomes the two letters \<open>SS\<close>; the micro sign (181) and the y with diaeresis (255)
  have upper-case forms above U+00FF, outside the modelled strings, so the result is
  \<open>None\<close> for a string that holds one of them; every other character is kept.
\<close>

definition toUpperChar :: "char \<Rightarrow> string option" where
  "toUpperChar c =
     (let n = (of_char c :: nat)
      in if (97 \<le> n \<and> n \<le> 122) \<or> (224 \<le> n \<and> n \<le> 254 \<and> n \<noteq> 247)
         then Some [char_of (n - 32)]
         else if n = 223 then Some ''SS''
         else if n = 181 \<or> n = 255 then None
         else Some [c])"

definition toUpperCase :: "string \<Rightarrow> string option" where
  "toUpperCase s = map_option concat (those (map toUpperChar s))"

text \<open>
  Equality up to case in the words of the claim: two strings are casings of one another
  when a case mapping gives both the same form, the lower-case one or the upper-case
  one.
\<close>

definition equalUpToCase :: "string \<Rightarrow> string \<Rightarrow> bool" where
  "equalUpToCase s t =
     (toLowerCase s = toLowerCase t
      \<or> (toUpperCase s \<noteq> None \<and> toUpperCase s = toUpperCase t))"

section \<open>Errors and the session payload\<close>

text \<open>
  The error classes that create-text.ts imports from workers/lib/errors and throws.
  Each carries its message.
\<close>

datatype error =
    NotFoundError string
  | UnauthorizedError string
  | ValidationError string
  | ServerError string

text \<open>
  Modelled from the spec: workers/lib/errors.ts (the classes' status codes and
  \<open>handleError\<close>) is not among the sources. Section 7 of the specification gives the
  taxonomy of error kinds and their HTTP status codes; a thrown error class is read as
  the kind of the same name (\<open>ValidationError\<close> as \<open>InvalidInput\<close>).
\<close>

datatype ErrorKind =
    InvalidInput
  | InvalidCredentials
  | Unauthorized
  | Forbidden
  | NotFound
  | ServerErrorKind

text \<open>
  Modelled from the spec: the status codes of workers/lib/errors.ts (absent), section 7.
\<close>

fun httpStatus :: "ErrorKind \<Rightarrow> nat" where
  "httpStatus InvalidInput = 400"
| "httpStatus InvalidCredentials = 401"
| "httpStatus Unauthorized = 401"
| "httpStatus Forbidden = 403"
| "httpStatus NotFound = 404"
| "httpStatus ServerErrorKind = 500"

text \<open>
  Modelled from the spec: the kind of a thrown error class, by its name; errors.ts
  (absent) defines the classes.
\<close>

fun errorKind :: "error \<Rightarrow> ErrorKind" where
  "errorKind (NotFoundError m) = NotFound"
| "errorKind (UnauthorizedError m) = Unauthorized"
| "errorKind (ValidationError m) = InvalidInput"
| "errorKind (ServerError m) = ServerErrorKind"

text \<open>
  Modelled from the spec: the type \<open>SessionPayload\<close> of workers/lib/jwt.ts is not among
  the sources. Section 3 gives the token as subject, role, issuedAt and expiresAt;
  create-text.ts reads the subject as \<open>user.sub\<close>. Times are seconds.
\<close>

record SessionPayload =
  sub :: string
  session_role :: role
  issuedAt :: int
  expiresAt :: int

section \<open>Create text block: workers/posts/create-text.ts\<close>

text \<open>
  A JSON value as the handler sees it after \<open>parseJsonBody\<close>: an absent field reads
  as \<open>undefined\<close>; arrays and objects are one opaque case.
\<close>

datatype jsvalue =
    JUndefined
  | JNull
  | JBool bool
  | JNumber rat
  | JString string
  | JObject

fun truthy :: "jsvalue \<Rightarrow> bool" where
  "truthy JUndefined = False"
| "truthy JNull = False"
| "truthy (JBool b) = b"
| "truthy (JNumber n) = (n \<noteq> 0)"
| "truthy (JString s) = (s \<noteq> [])"
| "truthy JObject = True"

fun isString :: "jsvalue \<Rightarrow> bool" where
  "isString (JString s) = True"
| "isString v = False"

fun stringOf :: "jsvalue \<Rightarrow> string" where
  "stringOf (JString s) = s"
| "stringOf v = []"

text \<open>
  A field declared \<open>displayOrder?: number\<close>: absent (\<open>undefined\<close>), \<open>null\<close> (which
  JSON can carry), or a number.
\<close>

datatype 'a optional = Undefined | Null | Defined 'a

text \<open>The operator \<open>a ?? b\<close>: \<open>b\<close> when \<open>a\<close> is \<open>undefined\<close> or \<open>null\<close>.\<close>

fun nullish :: "'a optional \<Rightarrow> 'a optional \<Rightarrow> 'a optional" where
  "nullish Undefined b = b"
| "nullish Null b = b"
| "nullish (Defined v) b = Defined v"

record CreateTextRequest =
  content :: jsvalue
  displayOrder :: "rat optional"

text \<open>
  The two tables the handler touches, with the columns it reads and writes (and the
  \<open>status\<close> column of \<open>blog_posts\<close>, which the query layer filters on).
\<close>

datatype status = Draft | Published

record blog_posts_row =
  bp_id :: string
  bp_slug :: string
  author_id :: string
  bp_status :: status
  created_at :: string
  updated_at :: string
  published_at :: "string option"

record text_content_row =
  tc_id :: string
  tc_post_id :: string
  tc_content :: string
  display_order :: rat
  section_name :: string
  tc_created_at :: string

record database =
  blog_posts :: "blog_posts_row list"
  text_content :: "text_content_row list"

text \<open>\<open>SELECT author_id FROM blog_posts WHERE id = ?\<close> through \<open>queryOne\<close>: the first row or null.\<close>

definition selectAuthor :: "database \<Rightarrow> string \<Rightarrow> string option" where
  "selectAuthor db postId =
     map_option author_id (find (\<lambda>r. bp_id r = postId) (blog_posts db))"

text \<open>
  \<open>SELECT MAX(display_order) as max_order FROM text_content WHERE post_id = ?\<close>: one
  row, whose \<open>max_order\<close> is NULL when the post has no text block.
\<close>

definition selectMaxOrder :: "database \<Rightarrow> string \<Rightarrow> rat option" where
  "selectMaxOrder db postId =
     (let ks = map display_order (filter (\<lambda>r. tc_post_id r = postId) (text_content db))
      in if ks = [] then None else Some (Max (set ks)))"

definition insertText :: "text_content_row \<Rightarrow> database \<Rightarrow> database" where
  "insertText r db = db\<lparr>text_content := text_content db @ [r]\<rparr>"

text \<open>\<open>UPDATE blog_posts SET updated_at = ? WHERE id = ?\<close>\<close>

definition touchPost :: "string \<Rightarrow> string \<Rightarrow> database \<Rightarrow> database" where
  "touchPost now postId db =
     db\<lparr>blog_posts :=
          map (\<lambda>r. if bp_id r = postId then r\<lparr>updated_at := now\<rparr> else r) (blog_posts db)\<rparr>"

text \<open>
  Lines 69 to 78, "Determine display order": \<open>body.displayOrder ?? 0\<close>, then the test
  for \<open>undefined\<close> or \<open>null\<close> with the fallback \<open>(maxOrder?.max_order ?? -1) + 1\<close>.
  The result is an \<open>optional\<close> as the variable is in the source.
\<close>

definition determineDisplayOrder :: "CreateTextRequest \<Rightarrow> database \<Rightarrow> string \<Rightarrow> rat optional" where
  "determineDisplayOrder body db postId =
     (let displayOrder0 = nullish (displayOrder body) (Defined 0)
      in if displayOrder0 = Undefined \<or> displayOrder0 = Null
         then (case selectMaxOrder db postId of
                 None \<Rightarrow> Defined (- 1 + 1)
               | Some m \<Rightarrow> Defined (m + 1))
         else displayOrder0)"

text \<open>
  The number the variable \<open>displayOrder\<close> holds when it reaches the \<open>INSERT\<close>; it is
  never \<open>undefined\<close> or \<open>null\<close> there (lemma \<open>determineDisplayOrder_eq\<close>).
\<close>

fun numberOf :: "rat optional \<Rightarrow> rat" where
  "numberOf (Defined v) = v"
| "numberOf v = 0"

record CreateTextResponse =
  resp_status :: nat
  resp_textId :: string
  resp_content :: string
  resp_displayOrder :: rat
  resp_createdAt :: string

text \<open>
  The handler inside \<open>withAuth\<close>: \<open>user\<close> is the verified session. \<open>textId\<close> is what
  \<open>generateUUID()\<close> returns and \<open>now\<close> what \<open>new Date().toISOString()\<close> returns. The
  route parameter \<open>postId\<close> may be absent. The body is the parsed JSON. The result is
  the thrown error or the response, with the database after the call; the database
  statements themselves are taken to succeed (the \<open>catch\<close> maps any other exception
  to \<open>ServerError\<close>).
\<close>

definition createText ::
  "string \<Rightarrow> string \<Rightarrow> SessionPayload \<Rightarrow> string option \<Rightarrow> CreateTextRequest \<Rightarrow> database
     \<Rightarrow> (error + CreateTextResponse) \<times> database" where
  "createText textId now user postIdParam body db =
     (case postIdParam of
        None \<Rightarrow> (Inl (NotFoundError ''Post not found''), db)
      | Some postId \<Rightarrow>
          if postId = [] then (Inl (NotFoundError ''Post not found''), db)
          else if \<not> truthy (content body) \<or> \<not> isString (content body)
          then (Inl (ValidationError ''content is required and must be a string''), db)
          else (case selectAuthor db postId of
                  None \<Rightarrow> (Inl (NotFoundError ''Post not found''), db)
                | Some author \<Rightarrow>
                    if author \<noteq> sub user
                    then (Inl (UnauthorizedError
                            ''You do not have permission to add text to this post''), db)
                    else
                      (let order = numberOf (determineDisplayOrder body db postId);
                           row = \<lparr>tc_id = textId, tc_post_id = postId,
                                  tc_content = stringOf (content body),
                                  display_order = order, section_name = ''main'',
                                  tc_created_at = now\<rparr>;
                           db1 = insertText row db;
                           db2 = touchPost now postId db1
                       in (Inr \<lparr>resp_status = 201, resp_textId = textId,
                                 resp_content = stringOf (content body),
                                 resp_displayOrder = order, resp_createdAt = now\<rparr>, db2))))"

text \<open>
  Modelled from the spec: the capability predicate of section 4.2,
  \<open>canModify(user, post) = (user.role == contributor) AND (user.id == post.authorId)\<close>,
  which no source file defines; create-text.ts does not call it.
\<close>

definition canModify :: "SessionPayload \<Rightarrow> blog_posts_row \<Rightarrow> bool" where
  "canModify user post = (session_role user = Contributor \<and> sub user = author_id post)"

section \<open>Post renderer: src/components/blog/PostRenderer.tsx\<close>

text \<open>
  The content items, with the fields the renderer reads (the interfaces \<open>Photo\<close>,
  \<open>Video\<close> and \<open>TextBlock\<close> as the posts API delivers them). \<open>displayOrder\<close> is a
  JavaScript number; the finite numbers are rationals.
\<close>

record Photo =
  photo_id :: string
  photo_url :: string
  photo_altText :: string
  photo_caption :: "string option"
  photo_displayOrder :: rat

record Video =
  video_id :: string
  video_url :: string
  video_thumbnailUrl :: "string option"
  video_caption :: "string option"
  video_displayOrder :: rat

record TextBlock =
  block_id :: string
  block_content :: string
  block_displayOrder :: rat

record BlogPost =
  post_id :: string
  title :: string
  description :: "string option"
  coverImage :: "string option"
  templateId :: string
  createdAt :: string
  publishedAt :: "string option"

text \<open>
  Arrays are mutable objects. A heap of arrays of one element type maps a reference
  (an address) to the array's elements; \<open>top\<close> is the next free address, so the
  allocated references are those below \<open>top\<close>. There is one heap per element type.
\<close>

record 'a heap =
  cells :: "nat \<Rightarrow> 'a list"
  top :: nat

record store =
  photoArrays :: "Photo heap"
  videoArrays :: "Video heap"
  textArrays :: "TextBlock heap"

text \<open>\<open>PostContent\<close> holds references to the three arrays.\<close>

record PostContent =
  photos :: nat
  videos :: nat
  textBlocks :: nat

record PostRendererProps =
  props_post :: BlogPost
  props_content :: PostContent

text \<open>The spread \<open>[...a]\<close>: a new array with the elements of \<open>a\<close>.\<close>

definition spread :: "'a heap \<Rightarrow> nat \<Rightarrow> nat \<times> 'a heap" where
  "spread h a = (top h, h\<lparr>cells := (cells h)(top h := cells h a), top := Suc (top h)\<rparr>)"

text \<open>
  \<open>Array.prototype.sort(compareFn)\<close> sorts the array in place, is stable, and returns
  the same reference. An element goes before the first element it does not compare
  greater than.
\<close>

fun insertBy :: "('a \<Rightarrow> 'a \<Rightarrow> rat) \<Rightarrow> 'a \<Rightarrow> 'a list \<Rightarrow> 'a list" where
  "insertBy cmp x [] = [x]"
| "insertBy cmp x (y # ys) = (if cmp x y \<le> 0 then x # y # ys else y # insertBy cmp x ys)"

definition sorted_by :: "('a \<Rightarrow> 'a \<Rightarrow> rat) \<Rightarrow> 'a list \<Rightarrow> 'a list" where
  "sorted_by cmp xs = foldr (insertBy cmp) xs []"

definition array_sort :: "('a \<Rightarrow> 'a \<Rightarrow> rat) \<Rightarrow> 'a heap \<Rightarrow> nat \<Rightarrow> nat \<times> 'a heap" where
  "array_sort cmp h a = (a, h\<lparr>cells := (cells h)(a := sorted_by cmp (cells h a))\<rparr>)"

text \<open>The comparator \<open>(a, b) => a.displayOrder - b.displayOrder\<close>, for each element type.\<close>

definition byDisplayOrder :: "('a \<Rightarrow> rat) \<Rightarrow> 'a \<Rightarrow> 'a \<Rightarrow> rat" where
  "byDisplayOrder key a b = key a - key b"

text \<open>\<open>[...a].sort((a, b) => a.displayOrder - b.displayOrder)\<close>\<close>

definition sortedCopy :: "('a \<Rightarrow> rat) \<Rightarrow> 'a heap \<Rightarrow> nat \<Rightarrow> nat \<times> 'a heap" where
  "sortedCopy key h a = (case spread h a of (c, h1) \<Rightarrow> array_sort (byDisplayOrder key) h1 c)"

text \<open>
  What a template renders, in document order: the header elements, the cover image
  and one node per content item.
\<close>

datatype node =
    Heading string
  | Paragraph string
  | Time string
  | CoverImage string
  | PhotoItem Photo
  | VideoItem Video
  | TextItem TextBlock

text \<open>A \<open>string | null\<close> used as a condition: null and the empty string are falsy.\<close>

fun whenSet :: "string option \<Rightarrow> (string \<Rightarrow> node) \<Rightarrow> node list" where
  "whenSet None mk = []"
| "whenSet (Some v) mk = (if v = [] then [] else [mk v])"

definition header :: "BlogPost \<Rightarrow> node list" where
  "header p =
     [Heading (title p)] @ whenSet (description p) Paragraph
       @ whenSet (publishedAt p) Time @ whenSet (coverImage p) CoverImage"

text \<open>
  \<open>DefaultTemplate\<close>: sorts a copy of each collection, then renders the header, all
  photos, all videos and all text blocks, in this order (a group that is empty renders
  nothing).
\<close>

definition DefaultTemplate :: "PostRendererProps \<Rightarrow> store \<Rightarrow> node list \<times> store" where
  "DefaultTemplate props st =
     (case sortedCopy photo_displayOrder (photoArrays st) (photos (props_content props)) of
        (sortedPhotos, ph) \<Rightarrow>
     (case sortedCopy video_displayOrder (videoArrays st) (videos (props_content props)) of
        (sortedVideos, vh) \<Rightarrow>
     (case sortedCopy block_displayOrder (textArrays st) (textBlocks (props_content props)) of
        (sortedTextBlocks, th) \<Rightarrow>
       (header (props_post props)
          @ map PhotoItem (cells ph sortedPhotos)
          @ map VideoItem (cells vh sortedVideos)
          @ map TextItem (cells th sortedTextBlocks),
        \<lparr>photoArrays = ph, videoArrays = vh, textArrays = th\<rparr>))))"

text \<open>
  Lines 159 to 163 of \<open>PostRenderer\<close>: the object \<open>sortedContent\<close>, three sorted
  copies.
\<close>

definition sortContent :: "PostContent \<Rightarrow> store \<Rightarrow> PostContent \<times> store" where
  "sortContent c st =
     (case sortedCopy photo_displayOrder (photoArrays st) (photos c) of (sp, ph) \<Rightarrow>
     (case sortedCopy video_displayOrder (videoArrays st) (videos c) of (sv, vh) \<Rightarrow>
     (case sortedCopy block_displayOrder (textArrays st) (textBlocks c) of (sb, th) \<Rightarrow>
       (\<lparr>photos = sp, videos = sv, textBlocks = sb\<rparr>,
        \<lparr>photoArrays = ph, videoArrays = vh, textArrays = th\<rparr>))))"

text \<open>
  \<open>PostRenderer\<close>: the registry \<open>templates\<close> maps a template id to a component; the
  registered components (Template01 to Template10) are not among the sources, so the
  registry is a parameter. \<open>templates[post.templateId] || DefaultTemplate\<close> falls back
  to the default template.
\<close>

type_synonym template = "PostRendererProps \<Rightarrow> store \<Rightarrow> node list \<times> store"

definition PostRenderer :: "(string \<Rightarrow> template option) \<Rightarrow> PostRendererProps \<Rightarrow> store
    \<Rightarrow> node list \<times> store" where
  "PostRenderer templates props st =
     (case sortContent (props_content props) st of
        (sortedContent, st1) \<Rightarrow>
          (let TemplateComponent =
                 (case templates (templateId (props_post props)) of
                    Some T \<Rightarrow> T
                  | None \<Rightarrow> DefaultTemplate)
           in TemplateComponent \<lparr>props_post = props_post props, props_content = sortedContent\<rparr> st1))"





text \<open>
  A reference is allocated when it is below \<open>top\<close>; a component keeps the allocated
  arrays when no allocated cell of the store changes and no reference is freed.
\<close>

definition keepsHeap :: "'a heap \<Rightarrow> 'a heap \<Rightarrow> bool" where
  "keepsHeap h h' = (top h \<le> top h' \<and> (\<forall>a. a < top h \<longrightarrow> cells h' a = cells h a))"

definition keepsStore :: "store \<Rightarrow> store \<Rightarrow> bool" where
  "keepsStore st st' =
     (keepsHeap (photoArrays st) (photoArrays st')
      \<and> keepsHeap (videoArrays st) (videoArrays st')
      \<and> keepsHeap (textArrays st) (textArrays st'))"

definition framePreserving :: "template \<Rightarrow> bool" where
  "framePreserving T = (\<forall>props st. keepsStore st (snd (T props st)))"

definition allocated :: "PostContent \<Rightarrow> store \<Rightarrow> bool" where
  "allocated c st =
     (photos c < top (photoArrays st) \<and> videos c < top (videoArrays st)
      \<and> textBlocks c < top (textArrays st))"

text \<open>The three input arrays hold the same elements in the same order in both stores.\<close>

definition inputsUnchanged :: "PostContent \<Rightarrow> store \<Rightarrow> store \<Rightarrow> bool" where
  "inputsUnchanged c st st' =
     (cells (photoArrays st') (photos c) = cells (photoArrays st) (photos c)
      \<and> cells (videoArrays st') (videos c) = cells (videoArrays st) (videos c)
      \<and> cells (textArrays st') (textBlocks c) = cells (textArrays st) (textBlocks c))"

section \<open>Session issuer (specification, section 4.1)\<close>

text \<open>
  Modelled from the spec: workers/auth/login.ts is not among the sources; only its tests
  and its route are. The request and the responses of \<open>POST /login\<close> as section 6
  gives them: username, password and rememberMe; on success the user's username and
  role, expiresAt and the session cookie; on failure a body of the shape success,
  error, message with its status.
\<close>

record LoginRequest =
  req_username :: "string option"
  req_password :: "string option"
  req_rememberMe :: bool

record ErrorBody =
  body_success :: bool
  body_error :: ErrorKind
  body_message :: string

record Cookie =
  cookie_name :: string
  cookie_token :: SessionPayload
  cookie_httpOnly :: bool
  cookie_secure :: bool
  cookie_sameSite :: string
  cookie_maxAge :: int

record LoginBody =
  login_success :: bool
  login_username :: string
  login_role :: role
  login_expiresAt :: int

datatype LoginResponse =
    LoginOk nat LoginBody Cookie
  | LoginFailed nat ErrorBody

text \<open>
  Modelled from the spec: the error response of login.ts (absent); the status is the one
  of the error kind (section 7).
\<close>

definition errorResponse :: "ErrorKind \<Rightarrow> string \<Rightarrow> LoginResponse" where
  "errorResponse k msg =
     LoginFailed (httpStatus k) \<lparr>body_success = False, body_error = k, body_message = msg\<rparr>"

text \<open>
  Modelled from the spec: the lifetimes of login.ts (absent), section 4.1: 7 days with
  rememberMe, 24 hours without, in seconds.
\<close>

definition sessionDuration :: "bool \<Rightarrow> int" where
  "sessionDuration rememberMe = (if rememberMe then 7 * 24 * 60 * 60 else 24 * 60 * 60)"

text \<open>
  Modelled from the spec: the token that login.ts (absent) issues, section 4.1:
  \<open>expiresAt = now + (rememberMe ? 7d : 24h)\<close>; the signature is not modelled.
\<close>

definition issueToken :: "User \<Rightarrow> int \<Rightarrow> bool \<Rightarrow> SessionPayload" where
  "issueToken u now rememberMe =
     \<lparr>sub = username u, session_role = role u, issuedAt = now,
      expiresAt = now + sessionDuration rememberMe\<rparr>"

text \<open>
  Modelled from the spec: the cookie that login.ts (absent) sets, section 4.1: HttpOnly,
  Secure, SameSite=Strict and a Max-Age equal to the chosen duration.
\<close>

definition sessionCookie :: "SessionPayload \<Rightarrow> bool \<Rightarrow> Cookie" where
  "sessionCookie tok rememberMe =
     \<lparr>cookie_name = ''session'', cookie_token = tok, cookie_httpOnly = True,
      cookie_secure = True, cookie_sameSite = ''Strict'',
      cookie_maxAge = sessionDuration rememberMe\<rparr>"

text \<open>
  Modelled from the spec: \<open>handleLogin\<close> of workers/auth/login.ts, which is not among
  the sources. Section 4.1: a missing username or password is InvalidInput (400); the
  user is looked up by case-insensitive username; an absent user and a mismatching
  password both give InvalidCredentials (401) with the one generic message; on success
  the token and the cookie are issued and the user's profile and expiresAt returned.
  The password check is the parameter \<open>verify password hash\<close>; \<open>now\<close> is the time of
  the call in seconds.
\<close>

definition handleLogin :: "User list \<Rightarrow> (string \<Rightarrow> string \<Rightarrow> bool) \<Rightarrow> int \<Rightarrow> LoginRequest
    \<Rightarrow> LoginResponse" where
  "handleLogin users verify now req =
     (case req_username req of
        None \<Rightarrow> errorResponse InvalidInput ''Username and password are required''
      | Some uname \<Rightarrow>
     (case req_password req of
        None \<Rightarrow> errorResponse InvalidInput ''Username and password are required''
      | Some password \<Rightarrow>
          if uname = [] \<or> password = []
          then errorResponse InvalidInput ''Username and password are required''
          else (case findUserByUsername users uname of
                  None \<Rightarrow> errorResponse InvalidCredentials ''Invalid username or password''
                | Some u \<Rightarrow>
                    if verify password (passwordHash u)
                    then (let tok = issueToken u now (req_rememberMe req)
                          in LoginOk 200
                               \<lparr>login_success = True, login_username = username u,
                                login_role = role u, login_expiresAt = expiresAt tok\<rparr>
                               (sessionCookie tok (req_rememberMe req)))
                    else errorResponse InvalidCredentials ''Invalid username or password'')))"

text \<open>
  The three kinds of login attempt the claims speak of, for a request that carries a
  non-empty username and a non-empty password: the username is not in the store; the
  username is in the store and the password does not verify; the password verifies.
\<close>

definition unknownUser :: "User list \<Rightarrow> LoginRequest \<Rightarrow> bool" where
  "unknownUser users req =
     (case (req_username req, req_password req) of
        (Some u, Some p) \<Rightarrow> u \<noteq> [] \<and> p \<noteq> [] \<and> findUserByUsername users u = None
      | _ \<Rightarrow> False)"

definition wrongPassword :: "User list \<Rightarrow> (string \<Rightarrow> string \<Rightarrow> bool) \<Rightarrow> LoginRequest \<Rightarrow> bool" where
  "wrongPassword users verify req =
     (case (req_username req, req_password req) of
        (Some u, Some p) \<Rightarrow>
          u \<noteq> [] \<and> p \<noteq> [] \<and>
          (case findUserByUsername users u of
             None \<Rightarrow> False
           | Some usr \<Rightarrow> \<not> verify p (passwordHash usr))
      | _ \<Rightarrow> False)"

definition validCredentials :: "User list \<Rightarrow> (string \<Rightarrow> string \<Rightarrow> bool) \<Rightarrow> LoginRequest \<Rightarrow> bool" where
  "validCredentials users verify req =
     (case (req_username req, req_password req) of
        (Some u, Some p) \<Rightarrow>
          u \<noteq> [] \<and> p \<noteq> [] \<and>
          (case findUserByUsername users u of
             None \<Rightarrow> False
           | Some usr \<Rightarrow> verify p (passwordHash usr))
      | _ \<Rightarrow> False)"

section \<open>Content repository and role-gated query layer (specification, sections 3, 4.3, 4.4)\<close>

text \<open>
  Modelled from the spec: the content repository behind workers/posts/list-posts.ts,
  get-post.ts and reorder.ts, none of which is among the sources (only the router that
  imports them is). Section 3: a content item has an id, the id of its post, a
  displayOrder and type-specific fields (url, caption and altText for a photo; url,
  caption, thumbnail and duration for a video; content for a text block). The
  repository holds the posts and the content items.
\<close>

datatype contentType = PhotoType | VideoType | TextType

datatype itemFields =
    PhotoFields string "string option" string
  | VideoFields string "string option" "string option" "nat option"
  | TextFields string

record ContentItem =
  item_id :: string
  item_postId :: string
  item_displayOrder :: rat
  item_fields :: itemFields

fun fieldsType :: "itemFields \<Rightarrow> contentType" where
  "fieldsType (PhotoFields u c a) = PhotoType"
| "fieldsType (VideoFields u c t d) = VideoType"
| "fieldsType (TextFields c) = TextType"

definition itemType :: "ContentItem \<Rightarrow> contentType" where
  "itemType it = fieldsType (item_fields it)"

record repository =
  repo_posts :: "blog_posts_row list"
  repo_items :: "ContentItem list"

text \<open>
  Modelled from the spec: the request and the response of list-posts.ts (absent), as
  section 6 gives them: status, limit and offset; the posts and the pagination with
  total, limit and offset.
\<close>

datatype statusFilter = OnlyPublished | AllStatuses

record ListFilters =
  filter_status :: statusFilter
  filter_limit :: nat
  filter_offset :: nat

record Pagination =
  page_total :: nat
  page_limit :: nat
  page_offset :: nat

record PostList =
  posts :: "blog_posts_row list"
  pagination :: Pagination

text \<open>
  Modelled from the spec: the sort key of list-posts.ts (absent), section 4.3:
  publishedAt, falling back to createdAt for drafts. Timestamps are ISO strings, whose
  lexicographic order is the order in time.
\<close>

definition orderingKey :: "blog_posts_row \<Rightarrow> string" where
  "orderingKey p = (case published_at p of Some t \<Rightarrow> t | None \<Rightarrow> created_at p)"

text \<open>
  Modelled from the spec: the order of list-posts.ts (absent), section 4.3: newest
  first, ties broken by id ascending.
\<close>

definition listedBefore :: "blog_posts_row \<Rightarrow> blog_posts_row \<Rightarrow> bool" where
  "listedBefore a b =
     (orderingKey b < orderingKey a \<or> (orderingKey a = orderingKey b \<and> bp_id a \<le> bp_id b))"

text \<open>
  Modelled from the spec: the \<open>ORDER BY\<close> of list-posts.ts (absent) as a sort by
  insertion under \<open>listedBefore\<close>.
\<close>

fun insertPost :: "blog_posts_row \<Rightarrow> blog_posts_row list \<Rightarrow> blog_posts_row list" where
  "insertPost p [] = [p]"
| "insertPost p (q # qs) = (if listedBefore p q then p # q # qs else q # insertPost p qs)"

definition sortPosts :: "blog_posts_row list \<Rightarrow> blog_posts_row list" where
  "sortPosts ps = foldr insertPost ps []"

text \<open>
  Modelled from the spec: the visibility filter of list-posts.ts (absent), section 4.3.
  With status published only published posts are returned, whatever the caller's role;
  a contributor calling with status all receives the posts they authored, drafts and
  published. A caller who is not a contributor gets published posts under either
  filter (a reader may only view published posts).
\<close>

definition visibleTo :: "role \<Rightarrow> string \<Rightarrow> statusFilter \<Rightarrow> blog_posts_row \<Rightarrow> bool" where
  "visibleTo callerRole callerId f p =
     (if f = AllStatuses \<and> callerRole = Contributor
      then author_id p = callerId
      else bp_status p = Published)"

text \<open>
  Modelled from the spec: \<open>listPosts\<close> of workers/posts/list-posts.ts, which is not
  among the sources. Section 4.3: the visible posts in the order above; limit and
  offset select a page of that order; the response carries the pagination with the
  total.
\<close>

definition listPosts :: "repository \<Rightarrow> role \<Rightarrow> string \<Rightarrow> ListFilters \<Rightarrow> PostList" where
  "listPosts repo callerRole callerId filters =
     (let visible = filter (visibleTo callerRole callerId (filter_status filters)) (repo_posts repo)
      in \<lparr>posts = take (filter_limit filters) (drop (filter_offset filters) (sortPosts visible)),
          pagination = \<lparr>page_total = length visible, page_limit = filter_limit filters,
                         page_offset = filter_offset filters\<rparr>\<rparr>)"





text \<open>
  Modelled from the spec: the target ordering of reorder.ts (absent), section 4.4: a
  list of content ids with type tags. An entry refers to the items of the post with
  that type and id.
\<close>

type_synonym itemRef = "contentType \<times> string"

definition refersTo :: "string \<Rightarrow> itemRef \<Rightarrow> ContentItem \<Rightarrow> bool" where
  "refersTo postId ref it =
     (item_postId it = postId \<and> itemType it = fst ref \<and> item_id it = snd ref)"

text \<open>
  Modelled from the spec: one item update of reorder.ts (absent): the displayOrder of
  the item is set; the update fails when the post holds no such item.
\<close>

definition setDisplayOrder :: "string \<Rightarrow> itemRef \<Rightarrow> rat \<Rightarrow> ContentItem list \<Rightarrow> ContentItem list option" where
  "setDisplayOrder postId ref k items =
     (if list_ex (refersTo postId ref) items
      then Some (map (\<lambda>it. if refersTo postId ref it then it\<lparr>item_displayOrder := k\<rparr> else it) items)
      else None)"

text \<open>
  Modelled from the spec: the updates of reorder.ts (absent), one after the other on the
  working state of the transaction; the item at position \<open>i\<close> of the target receives
  displayOrder \<open>i\<close>, which preserves the target's relative order and gives the same
  assignment when applied twice (section 8). The first failing update ends the run.
\<close>

fun applyOrdering :: "string \<Rightarrow> itemRef list \<Rightarrow> nat \<Rightarrow> ContentItem list \<Rightarrow> ContentItem list option" where
  "applyOrdering postId [] i items = Some items"
| "applyOrdering postId (ref # rest) i items =
     (case setDisplayOrder postId ref (of_nat i) items of
        None \<Rightarrow> None
      | Some items1 \<Rightarrow> applyOrdering postId rest (Suc i) items1)"

text \<open>
  Modelled from the spec: \<open>reorderContent\<close> of workers/posts/reorder.ts, which is not
  among the sources. Section 4.4 and section 4.2: the caller must pass \<open>canModify\<close>
  (Forbidden otherwise); the updates run inside one transaction; when an update fails
  the request fails (InvalidInput) and the transaction is rolled back, so the
  repository is the one before the call; otherwise the working state is committed.
\<close>

definition reorderContent :: "repository \<Rightarrow> SessionPayload \<Rightarrow> string \<Rightarrow> itemRef list
    \<Rightarrow> (ErrorKind + unit) \<times> repository" where
  "reorderContent repo user postId orderedIds =
     (case find (\<lambda>p. bp_id p = postId) (repo_posts repo) of
        None \<Rightarrow> (Inl NotFound, repo)
      | Some p \<Rightarrow>
          if \<not> canModify user p then (Inl Forbidden, repo)
          else (case applyOrdering postId orderedIds 0 (repo_items repo) of
                  None \<Rightarrow> (Inl InvalidInput, repo)
                | Some items \<Rightarrow> (Inr (), repo\<lparr>repo_items := items\<rparr>)))"

text \<open>The stored displayOrder of the item an entry refers to, if the post holds one.\<close>

definition orderIn :: "ContentItem list \<Rightarrow> string \<Rightarrow> itemRef \<Rightarrow> rat option" where
  "orderIn items postId ref = map_option item_displayOrder (find (refersTo postId ref) items)"

definition orderOf :: "repository \<Rightarrow> string \<Rightarrow> itemRef \<Rightarrow> rat option" where
  "orderOf repo postId ref = orderIn (repo_items repo) postId ref"

section \<open>Example data\<close>

text \<open>Two users of the credential store, as the tests and the user summary name them.\<close>

definition userAdmin :: User where
  "userAdmin = \<lparr>username = ''Admin'', passwordHash = ''hash-admin'', role = Contributor,
                 user_createdAt = None, displayName = Some ''Admin''\<rparr>"

definition userLeser :: User where
  "userLeser = \<lparr>username = ''leser'', passwordHash = ''hash-leser'', role = Reader,
                 user_createdAt = None, displayName = None\<rparr>"

definition exampleUsers :: "User list" where
  "exampleUsers = [userAdmin, userLeser]"

text \<open>
  Two users whose names leave ASCII: \<open>Ase\<close> written with the capital A with ring
  (U+00C5), and \<open>strasse\<close> written with the sharp s (U+00DF).
\<close>

definition userAse :: User where
  "userAse = \<lparr>username = CHR 0xC5 # ''se'', passwordHash = ''hash-ase'', role = Reader,
               user_createdAt = None, displayName = None\<rparr>"

definition userStrasse :: User where
  "userStrasse = \<lparr>username = ''stra'' @ [CHR 0xDF] @ ''e'', passwordHash = ''hash-strasse'',
                   role = Reader, user_createdAt = None, displayName = None\<rparr>"

definition latinUsers :: "User list" where
  "latinUsers = [userAse, userStrasse]"

text \<open>A database with one draft post of \<open>admin\<close> that already has a text block at order 5.\<close>

definition exampleDb :: database where
  "exampleDb =
     \<lparr>blog_posts = [\<lparr>bp_id = ''p1'', bp_slug = ''oslo'', author_id = ''admin'',
                       bp_status = Draft, created_at = ''2025-11-16'',
                       updated_at = ''2025-11-16'', published_at = None\<rparr>],
      text_content = [\<lparr>tc_id = ''t1'', tc_post_id = ''p1'', tc_content = ''hello'',
                         display_order = 5, section_name = ''main'',
                         tc_created_at = ''2025-11-16''\<rparr>]\<rparr>"

definition sessionAdmin :: SessionPayload where
  "sessionAdmin = \<lparr>sub = ''admin'', session_role = Contributor, issuedAt = 0, expiresAt = 86400\<rparr>"

definition sessionOther :: SessionPayload where
  "sessionOther = \<lparr>sub = ''testcontributor'', session_role = Contributor,
                    issuedAt = 0, expiresAt = 86400\<rparr>"

definition bodyNoOrder :: CreateTextRequest where
  "bodyNoOrder = \<lparr>content = JString ''more'', displayOrder = Undefined\<rparr>"

text \<open>
  The scenario of the specification: photos at displayOrder 2, 0, 1 (in this array
  order) and one text block at displayOrder 1.5; no video.
\<close>

definition photoAt :: "rat \<Rightarrow> Photo" where
  "photoAt k = \<lparr>photo_id = ''photo'', photo_url = ''u'', photo_altText = ''a'',
                photo_caption = None, photo_displayOrder = k\<rparr>"

definition textAt :: "rat \<Rightarrow> TextBlock" where
  "textAt k = \<lparr>block_id = ''text'', block_content = ''c'', block_displayOrder = k\<rparr>"

definition exampleStore :: store where
  "exampleStore =
     \<lparr>photoArrays = \<lparr>cells = (\<lambda>a. if a = 0 then [photoAt 2, photoAt 0, photoAt 1] else []),
                      top = 1\<rparr>,
      videoArrays = \<lparr>cells = (\<lambda>a. []), top = 1\<rparr>,
      textArrays = \<lparr>cells = (\<lambda>a. if a = 0 then [textAt (3 / 2)] else []), top = 1\<rparr>\<rparr>"

definition exampleContent :: PostContent where
  "exampleContent = \<lparr>photos = 0, videos = 0, textBlocks = 0\<rparr>"

definition examplePost :: BlogPost where
  "examplePost = \<lparr>post_id = ''p1'', title = ''Oslo'', description = None, coverImage = None,
                   templateId = ''default'', createdAt = ''2025-11-16'', publishedAt = None\<rparr>"



definition defaultOnly :: "string \<Rightarrow> template option" where
  "defaultOnly k = (if k = ''default'' then Some DefaultTemplate else None)"

text \<open>A password check for the examples: the hash of \<open>p\<close> is \<open>hash-p\<close>.\<close>

definition exampleVerify :: "string \<Rightarrow> string \<Rightarrow> bool" where
  "exampleVerify password hash = (hash = ''hash-'' @ password)"

definition reqUnknown :: LoginRequest where
  "reqUnknown = \<lparr>req_username = Some ''nonexistent'', req_password = Some ''anypassword'',
                  req_rememberMe = False\<rparr>"

definition reqWrong :: LoginRequest where
  "reqWrong = \<lparr>req_username = Some ''leser'', req_password = Some ''wrong'',
                req_rememberMe = False\<rparr>"

definition reqValid :: LoginRequest where
  "reqValid = \<lparr>req_username = Some ''LESER'', req_password = Some ''leser'',
                req_rememberMe = True\<rparr>"

text \<open>
  A repository with two drafts and two published posts of two authors; post \<open>p1\<close> has
  a photo, a text block and a video at displayOrder 0, 1, 2.
\<close>

definition postOf :: "string \<Rightarrow> string \<Rightarrow> status \<Rightarrow> string \<Rightarrow> string option \<Rightarrow> blog_posts_row" where
  "postOf i author st created published =
     \<lparr>bp_id = i, bp_slug = ''slug-'' @ i, author_id = author, bp_status = st,
      created_at = created, updated_at = created, published_at = published\<rparr>"

definition exampleRepo :: repository where
  "exampleRepo =
     \<lparr>repo_posts =
        [postOf ''p1'' ''admin'' Draft ''2025-11-14'' None,
         postOf ''p2'' ''admin'' Published ''2025-11-10'' (Some ''2025-11-15''),
         postOf ''p3'' ''testcontributor'' Draft ''2025-11-16'' None,
         postOf ''p4'' ''testcontributor'' Published ''2025-11-12'' (Some ''2025-11-17'')],
      repo_items =
        [\<lparr>item_id = ''a'', item_postId = ''p1'', item_displayOrder = 0,
           item_fields = PhotoFields ''u1'' None ''alt''\<rparr>,
         \<lparr>item_id = ''b'', item_postId = ''p1'', item_displayOrder = 1,
           item_fields = TextFields ''hello''\<rparr>,
         \<lparr>item_id = ''c'', item_postId = ''p1'', item_displayOrder = 2,
           item_fields = VideoFields ''u2'' None None None\<rparr>]\<rparr>"

definition goodOrder :: "itemRef list" where
  "goodOrder = [(VideoType, ''c''), (PhotoType, ''a''), (TextType, ''b'')]"

definition badOrder :: "itemRef list" where
  "badOrder = [(VideoType, ''c''), (TextType, ''missing'')]"

section \<open>Lemmas on the credential store\<close>

lemma toLowerChar_idem: "toLowerChar (toLowerChar c) = toLowerChar c"
proof -
  let ?n = "of_char c :: nat"
  show ?thesis
  proof (cases "(65 \<le> ?n \<and> ?n \<le> 90) \<or> (192 \<le> ?n \<and> ?n \<le> 222 \<and> ?n \<noteq> 215)")
    case True
    then have "(of_char (char_of (?n + 32) :: char) :: nat) = ?n + 32"
      by auto
    moreover from True have "\<not> ((65 \<le> ?n + 32 \<and> ?n + 32 \<le> 90)
        \<or> (192 \<le> ?n + 32 \<and> ?n + 32 \<le> 222 \<and> ?n + 32 \<noteq> 215))"
      by auto
    ultimately have "toLowerChar (char_of (?n + 32)) = char_of (?n + 32)"
      by (simp add: toLowerChar_def Let_def)
    moreover from True have "toLowerChar c = char_of (?n + 32)"
      by (simp add: toLowerChar_def Let_def)
    ultimately show ?thesis by simp
  next
    case False
    then have "toLowerChar c = c"
      by (auto simp add: toLowerChar_def Let_def)
    then show ?thesis by simp
  qed
qed

lemma toLowerCase_idem: "toLowerCase (toLowerCase s) = toLowerCase s"
  by (simp add: toLowerCase_def toLowerChar_idem)

lemma find_first_of_distinct:
  "distinct (map f xs) \<Longrightarrow> x \<in> set xs \<Longrightarrow> find (\<lambda>y. f y = f x) xs = Some x"
proof (induction xs)
  case Nil
  then show ?case by simp
next
  case (Cons y ys)
  show ?case
  proof (cases "y = x")
    case True
    then show ?thesis by simp
  next
    case False
    with Cons.prems have xin: "x \<in> set ys" by simp
    from Cons.prems have "f y \<notin> f ` set ys" by simp
    with xin have "f y \<noteq> f x" by auto
    moreover from Cons.prems have "distinct (map f ys)" by simp
    ultimately show ?thesis using Cons.IH xin by simp
  qed
qed

lemma find_some_of_member:
  "x \<in> set xs \<Longrightarrow> P x \<Longrightarrow> \<exists>y. find P xs = Some y \<and> P y \<and> y \<in> set xs"
  by (induction xs) auto

section \<open>Lemmas on the renderer\<close>

lemma insertBy_insort: "insertBy (byDisplayOrder key) x xs = insort_key key x xs"
  by (induction xs) (simp_all add: byDisplayOrder_def)

lemma sorted_by_sort_key: "sorted_by (byDisplayOrder key) xs = sort_key key xs"
  by (induction xs) (simp_all add: sorted_by_def insertBy_insort)

lemma sortedCopy_eq:
  "sortedCopy key h a =
     (top h, h\<lparr>cells := (cells h)(top h := sort_key key (cells h a)), top := Suc (top h)\<rparr>)"
  by (simp add: sortedCopy_def spread_def array_sort_def sorted_by_sort_key)

lemma keepsHeap_sortedCopy: "keepsHeap h (snd (sortedCopy key h a))"
  by (simp add: sortedCopy_eq keepsHeap_def)

lemma keepsHeap_trans: "keepsHeap h1 h2 \<Longrightarrow> keepsHeap h2 h3 \<Longrightarrow> keepsHeap h1 h3"
  unfolding keepsHeap_def
proof (intro conjI allI impI)
  assume a: "top h1 \<le> top h2 \<and> (\<forall>a<top h1. cells h2 a = cells h1 a)"
    and b: "top h2 \<le> top h3 \<and> (\<forall>a<top h2. cells h3 a = cells h2 a)"
  from a b show "top h1 \<le> top h3" by simp
  fix x assume x: "x < top h1"
  with a have "x < top h2" by simp
  with b have "cells h3 x = cells h2 x" by simp
  with a x show "cells h3 x = cells h1 x" by simp
qed

lemma keepsStore_trans: "keepsStore s1 s2 \<Longrightarrow> keepsStore s2 s3 \<Longrightarrow> keepsStore s1 s3"
  unfolding keepsStore_def by (meson keepsHeap_trans)

lemma sortContent_eq:
  "sortContent c st =
     (\<lparr>photos = top (photoArrays st), videos = top (videoArrays st),
       textBlocks = top (textArrays st)\<rparr>,
      \<lparr>photoArrays = snd (sortedCopy photo_displayOrder (photoArrays st) (photos c)),
       videoArrays = snd (sortedCopy video_displayOrder (videoArrays st) (videos c)),
       textArrays = snd (sortedCopy block_displayOrder (textArrays st) (textBlocks c))\<rparr>)"
  by (simp add: sortContent_def sortedCopy_eq)

lemma DefaultTemplate_store:
  "snd (DefaultTemplate props st) = snd (sortContent (props_content props) st)"
  by (simp add: DefaultTemplate_def sortContent_def split: prod.splits)

lemma keepsStore_sortContent: "keepsStore st (snd (sortContent c st))"
  by (simp add: sortContent_eq keepsStore_def keepsHeap_sortedCopy)

lemma framePreserving_DefaultTemplate: "framePreserving DefaultTemplate"
  by (simp add: framePreserving_def DefaultTemplate_store keepsStore_sortContent)




lemma PostRenderer_keeps:
  assumes "\<And>T. templates (templateId (props_post props)) = Some T \<Longrightarrow> framePreserving T"
  shows "keepsStore st (snd (PostRenderer templates props st))"
proof -
  obtain sc st1 where sc: "sortContent (props_content props) st = (sc, st1)"
    by (cases "sortContent (props_content props) st")
  then have k1: "keepsStore st st1"
    using keepsStore_sortContent [of st "props_content props"] by simp
  let ?p = "\<lparr>props_post = props_post props, props_content = sc\<rparr>"
  show ?thesis
  proof (cases "templates (templateId (props_post props))")
    case None
    then have "snd (PostRenderer templates props st) = snd (DefaultTemplate ?p st1)"
      by (simp add: PostRenderer_def sc)
    moreover have "keepsStore st1 (snd (DefaultTemplate ?p st1))"
      using framePreserving_DefaultTemplate by (simp add: framePreserving_def)
    ultimately show ?thesis using keepsStore_trans [OF k1] by simp
  next
    case (Some T)
    then have "snd (PostRenderer templates props st) = snd (T ?p st1)"
      by (simp add: PostRenderer_def sc)
    moreover have "keepsStore st1 (snd (T ?p st1))"
      using assms [OF Some] by (simp add: framePreserving_def)
    ultimately show ?thesis using keepsStore_trans [OF k1] by simp
  qed
qed




section \<open>Lemmas on the text-block handler\<close>

lemma nullish_default_defined: "nullish v (Defined d) \<noteq> Undefined \<and> nullish v (Defined d) \<noteq> Null"
  by (cases v) simp_all

lemma determineDisplayOrder_eq:
  "determineDisplayOrder body db postId = nullish (displayOrder body) (Defined 0)"
  using nullish_default_defined [of "displayOrder body" 0]
  by (simp add: determineDisplayOrder_def Let_def)

lemma createText_error_keeps_db:
  "fst (createText textId now user postIdParam body db) = Inl e \<Longrightarrow>
   snd (createText textId now user postIdParam body db) = db"
  by (auto simp add: createText_def Let_def split: option.splits if_splits)

lemma createText_success:
  "createText textId now user postIdParam body db = (Inr r, db') \<Longrightarrow>
   \<exists>postId. postIdParam = Some postId \<and> postId \<noteq> [] \<and> truthy (content body) \<and> isString (content body)
     \<and> selectAuthor db postId = Some (sub user)
     \<and> r = \<lparr>resp_status = 201, resp_textId = textId, resp_content = stringOf (content body),
             resp_displayOrder = numberOf (determineDisplayOrder body db postId), resp_createdAt = now\<rparr>
     \<and> db' = touchPost now postId (insertText \<lparr>tc_id = textId, tc_post_id = postId,
                                  tc_content = stringOf (content body),
                                  display_order = numberOf (determineDisplayOrder body db postId), section_name = ''main'',
                                  tc_created_at = now\<rparr> db)"
  by (auto simp add: createText_def Let_def split: option.splits if_splits)

section \<open>Lemmas on the session issuer\<close>

lemma handleLogin_unknown:
  assumes "unknownUser users req"
  shows "handleLogin users verify now req
           = errorResponse InvalidCredentials ''Invalid username or password''"
proof -
  from assms obtain u p where "req_username req = Some u" "req_password req = Some p"
      "u \<noteq> []" "p \<noteq> []" "findUserByUsername users u = None"
    by (auto simp add: unknownUser_def split: option.splits)
  then show ?thesis
    by (simp add: handleLogin_def)
qed

lemma handleLogin_wrong:
  assumes "wrongPassword users verify req"
  shows "handleLogin users verify now req
           = errorResponse InvalidCredentials ''Invalid username or password''"
proof -
  from assms obtain u p usr where "req_username req = Some u" "req_password req = Some p"
      "u \<noteq> []" "p \<noteq> []" "findUserByUsername users u = Some usr"
      "\<not> verify p (passwordHash usr)"
    by (auto simp add: wrongPassword_def split: option.splits)
  then show ?thesis
    by (simp add: handleLogin_def)
qed

lemma find_unknown: "findUserByUsername exampleUsers ''nonexistent'' = None"
  unfolding exampleUsers_def userAdmin_def userLeser_def by code_simp

lemma find_leser: "findUserByUsername exampleUsers ''leser'' = Some userLeser"
  unfolding exampleUsers_def userAdmin_def userLeser_def by code_simp

lemma find_LESER: "findUserByUsername exampleUsers ''LESER'' = Some userLeser"
  unfolding exampleUsers_def userAdmin_def userLeser_def by code_simp

section \<open>Lemmas on the query layer and the reorder operation\<close>

lemma mset_insertPost: "mset (insertPost p ps) = add_mset p (mset ps)"
  by (induction ps) simp_all

lemma mset_sortPosts: "mset (sortPosts ps) = mset ps"
  by (induction ps) (simp_all add: sortPosts_def mset_insertPost)

lemma set_sortPosts: "set (sortPosts ps) = set ps"
  using mset_sortPosts [of ps] by (metis set_mset_mset)

lemma visibleTo_published:
  "visibleTo callerRole callerId OnlyPublished = (\<lambda>p. bp_status p = Published)"
  by (simp add: visibleTo_def fun_eq_iff)

lemma listPosts_subset:
  "set (posts (listPosts repo callerRole callerId filters))
     \<subseteq> {p \<in> set (repo_posts repo). visibleTo callerRole callerId (filter_status filters) p}"
proof -
  have "set (posts (listPosts repo callerRole callerId filters))
          \<subseteq> set (sortPosts (filter (visibleTo callerRole callerId (filter_status filters))
                                (repo_posts repo)))"
    by (auto simp add: listPosts_def Let_def dest: in_set_takeD in_set_dropD)
  then show ?thesis
    by (simp add: set_sortPosts)
qed

lemma refersTo_update [simp]:
  "refersTo postId ref (it\<lparr>item_displayOrder := k\<rparr>) = refersTo postId ref it"
  by (simp add: refersTo_def itemType_def)

lemma refersTo_unique:
  "refersTo postId r1 it \<Longrightarrow> refersTo postId r2 it \<Longrightarrow> r1 = r2"
  by (simp add: refersTo_def prod_eq_iff)

lemma orderIn_map_same:
  "list_ex (refersTo postId ref) items \<Longrightarrow>
   orderIn (map (\<lambda>it. if refersTo postId ref it then it\<lparr>item_displayOrder := k\<rparr> else it) items)
           postId ref = Some k"
  by (induction items) (auto simp add: orderIn_def)

lemma orderIn_map_other:
  "ref' \<noteq> ref \<Longrightarrow>
   orderIn (map (\<lambda>it. if refersTo postId ref it then it\<lparr>item_displayOrder := k\<rparr> else it) items)
           postId ref' = orderIn items postId ref'"
  by (induction items) (auto simp add: orderIn_def dest: refersTo_unique)

lemma setDisplayOrder_same:
  "setDisplayOrder postId ref k items = Some items' \<Longrightarrow> orderIn items' postId ref = Some k"
  by (auto simp add: setDisplayOrder_def orderIn_map_same split: if_splits)

lemma setDisplayOrder_other:
  "setDisplayOrder postId ref k items = Some items' \<Longrightarrow> ref' \<noteq> ref \<Longrightarrow>
   orderIn items' postId ref' = orderIn items postId ref'"
  by (auto simp add: setDisplayOrder_def orderIn_map_other split: if_splits)

lemma applyOrdering_other:
  "applyOrdering postId refs i items = Some items' \<Longrightarrow> ref \<notin> set refs \<Longrightarrow>
   orderIn items' postId ref = orderIn items postId ref"
proof (induction refs arbitrary: i items)
  case Nil
  then show ?case by simp
next
  case (Cons r rest)
  from Cons.prems(1) obtain items1 where
    s: "setDisplayOrder postId r (of_nat i) items = Some items1"
    and a: "applyOrdering postId rest (Suc i) items1 = Some items'"
    by (auto split: option.splits)
  from Cons.prems(2) have "ref \<noteq> r" and "ref \<notin> set rest" by auto
  with Cons.IH [OF a] setDisplayOrder_other [OF s] show ?case by simp
qed

lemma applyOrdering_assigns:
  "applyOrdering postId refs i items = Some items' \<Longrightarrow> distinct refs \<Longrightarrow> k < length refs \<Longrightarrow>
   orderIn items' postId (refs ! k) = Some (of_nat (i + k))"
proof (induction refs arbitrary: i items k)
  case Nil
  then show ?case by simp
next
  case (Cons r rest)
  from Cons.prems(1) obtain items1 where
    s: "setDisplayOrder postId r (of_nat i) items = Some items1"
    and a: "applyOrdering postId rest (Suc i) items1 = Some items'"
    by (auto split: option.splits)
  from Cons.prems(2) have d: "distinct rest" and n: "r \<notin> set rest" by auto
  show ?case
  proof (cases k)
    case 0
    have "orderIn items' postId r = orderIn items1 postId r"
      by (rule applyOrdering_other [OF a n])
    with setDisplayOrder_same [OF s] 0 show ?thesis by simp
  next
    case (Suc m)
    with Cons.prems(3) have "m < length rest" by simp
    from Cons.IH [OF a d this] Suc show ?thesis by simp
  qed
qed

lemma reorderContent_failure:
  "fst (reorderContent repo user postId orderedIds) = Inl e \<Longrightarrow>
   snd (reorderContent repo user postId orderedIds) = repo"
  by (auto simp add: reorderContent_def split: option.splits if_splits)

lemma reorderContent_success:
  "reorderContent repo user postId orderedIds = (Inr u, repo') \<Longrightarrow>
   \<exists>items p. find (\<lambda>p. bp_id p = postId) (repo_posts repo) = Some p \<and> canModify user p
     \<and> applyOrdering postId orderedIds 0 (repo_items repo) = Some items
     \<and> repo' = repo\<lparr>repo_items := items\<rparr>"
  by (auto simp add: reorderContent_def split: option.splits if_splits)

section \<open>Claims\<close>




text \<open>
  C9. Rendering never mutates the input collections: for allocated input arrays, and
  registered templates that keep the allocated arrays, each of the three input arrays
  holds the same elements in the same order after the sorting step of \<open>PostRenderer\<close>,
  after \<open>DefaultTemplate\<close> and after \<open>PostRenderer\<close>, because every sort works on a
  fresh copy.
\<close>

theorem render_keeps_input_arrays:
  assumes "allocated c st"
    and "\<forall>T. templates (templateId p) = Some T \<longrightarrow> framePreserving T"
  shows "inputsUnchanged c st (snd (sortContent c st))
     \<and> inputsUnchanged c st (snd (DefaultTemplate \<lparr>props_post = p, props_content = c\<rparr> st))
     \<and> inputsUnchanged c st (snd (PostRenderer templates \<lparr>props_post = p, props_content = c\<rparr> st))"
proof -
  have kept: "inputsUnchanged c st st'" if "keepsStore st st'" for st'
    using that assms(1)
    by (simp add: inputsUnchanged_def keepsStore_def keepsHeap_def allocated_def)
  have "keepsStore st (snd (sortContent c st))"
    by (rule keepsStore_sortContent)
  moreover have "keepsStore st (snd (DefaultTemplate \<lparr>props_post = p, props_content = c\<rparr> st))"
    using framePreserving_DefaultTemplate by (simp add: framePreserving_def)
  moreover have "keepsStore st (snd (PostRenderer templates \<lparr>props_post = p, props_content = c\<rparr> st))"
    using assms(2) by (intro PostRenderer_keeps) simp
  ultimately show ?thesis
    using kept by blast
qed

text \<open>
  Witness for C9: the example store rendered through a registry that holds the default
  template; the photo array still reads 2, 0, 1.
\<close>

theorem render_keeps_input_arrays_witness:
  "allocated exampleContent exampleStore
   \<and> defaultOnly (templateId examplePost) = Some DefaultTemplate
   \<and> inputsUnchanged exampleContent exampleStore
        (snd (PostRenderer defaultOnly \<lparr>props_post = examplePost, props_content = exampleContent\<rparr>
                exampleStore))
   \<and> cells (photoArrays (snd (PostRenderer defaultOnly
          \<lparr>props_post = examplePost, props_content = exampleContent\<rparr> exampleStore))) 0
        = [photoAt 2, photoAt 0, photoAt 1]"
proof -
  have a: "allocated exampleContent exampleStore"
    by (simp add: allocated_def exampleContent_def exampleStore_def)
  have t: "defaultOnly (templateId examplePost) = Some DefaultTemplate"
    by (simp add: defaultOnly_def examplePost_def)
  have f: "\<forall>T. defaultOnly (templateId examplePost) = Some T \<longrightarrow> framePreserving T"
    by (simp add: t framePreserving_DefaultTemplate)
  have u: "inputsUnchanged exampleContent exampleStore
        (snd (PostRenderer defaultOnly \<lparr>props_post = examplePost, props_content = exampleContent\<rparr>
                exampleStore))"
    using render_keeps_input_arrays [of exampleContent exampleStore defaultOnly examplePost] a f by simp
  then have "cells (photoArrays (snd (PostRenderer defaultOnly
          \<lparr>props_post = examplePost, props_content = exampleContent\<rparr> exampleStore))) 0
        = [photoAt 2, photoAt 0, photoAt 1]"
    by (simp add: inputsUnchanged_def exampleContent_def exampleStore_def)
  with a t u show ?thesis by simp
qed

text \<open>
  C8 (amended). User lookup compares lower-case forms: looking up \<open>s\<close> and looking up
  \<open>toLowerCase s\<close> give the same result; for a stored user \<open>u\<close> and a string with
  the same lower-case form as its username the lookup finds a stored user with that
  lower-case form, and it finds \<open>u\<close> itself when the store keeps usernames unique up to
  case (the data model's invariant). A string that is a casing of the username under
  another case mapping only, such as its upper-case form, is not promised to be found.
\<close>

theorem findUserByUsername_case_insensitive:
  "findUserByUsername users s = findUserByUsername users (toLowerCase s)
   \<and> (u \<in> set users \<and> toLowerCase s = toLowerCase (username u) \<longrightarrow>
        (\<exists>v. findUserByUsername users s = Some v \<and> v \<in> set users
             \<and> toLowerCase (username v) = toLowerCase s))
   \<and> (usernamesUnique users \<and> u \<in> set users \<and> toLowerCase s = toLowerCase (username u) \<longrightarrow>
        findUserByUsername users s = Some u)"
proof (intro conjI impI)
  show "findUserByUsername users s = findUserByUsername users (toLowerCase s)"
    by (simp add: findUserByUsername_def toLowerCase_idem)
next
  assume h: "u \<in> set users \<and> toLowerCase s = toLowerCase (username u)"
  then have "\<exists>y. find (\<lambda>w. toLowerCase (username w) = toLowerCase s) users = Some y
               \<and> toLowerCase (username y) = toLowerCase s \<and> y \<in> set users"
    using find_some_of_member [of u users "\<lambda>w. toLowerCase (username w) = toLowerCase s"]
    by simp
  then show "\<exists>v. findUserByUsername users s = Some v \<and> v \<in> set users
             \<and> toLowerCase (username v) = toLowerCase s"
    by (auto simp add: findUserByUsername_def)
next
  assume h: "usernamesUnique users \<and> u \<in> set users \<and> toLowerCase s = toLowerCase (username u)"
  then have "find (\<lambda>w. toLowerCase (username w) = toLowerCase (username u)) users = Some u"
    using find_first_of_distinct [of "\<lambda>w. toLowerCase (username w)" users u]
    by (simp add: usernamesUnique_def)
  with h show "findUserByUsername users s = Some u"
    by (simp add: findUserByUsername_def)
qed

text \<open>
  Witness for C8 (amended): the stored user whose name is \<open>Ase\<close> with the capital A
  with ring is found under the same name written with the small a with ring and
  capital \<open>SE\<close>, and under its lower-case form.
\<close>

theorem findUserByUsername_case_insensitive_witness:
  "usernamesUnique latinUsers \<and> userAse \<in> set latinUsers
   \<and> toLowerCase (CHR 0xE5 # ''SE'') = toLowerCase (username userAse)
   \<and> findUserByUsername latinUsers (CHR 0xE5 # ''SE'') = Some userAse
   \<and> findUserByUsername latinUsers (CHR 0xE5 # ''SE'')
       = findUserByUsername latinUsers (CHR 0xE5 # ''se'')"
proof -
  have u: "usernamesUnique latinUsers"
    unfolding latinUsers_def userAse_def userStrasse_def by code_simp
  have m: "userAse \<in> set latinUsers"
    by (simp add: latinUsers_def)
  have e: "toLowerCase (CHR 0xE5 # ''SE'') = toLowerCase (username userAse)"
    unfolding userAse_def by code_simp
  have l: "toLowerCase (CHR 0xE5 # ''SE'') = CHR 0xE5 # ''se''"
    by code_simp
  have t: "findUserByUsername latinUsers (CHR 0xE5 # ''SE'')
             = findUserByUsername latinUsers (toLowerCase (CHR 0xE5 # ''SE''))
           \<and> findUserByUsername latinUsers (CHR 0xE5 # ''SE'') = Some userAse"
    using findUserByUsername_case_insensitive [of latinUsers "CHR 0xE5 # ''SE''" userAse] u m e
    by blast
  then have "findUserByUsername latinUsers (CHR 0xE5 # ''SE'')
               = findUserByUsername latinUsers (CHR 0xE5 # ''se'')"
    by (simp only: l)
  with t u m e show ?thesis by blast
qed

text \<open>
  Counterexample for C8 as stated: the stored username \<open>strasse\<close> written with the
  sharp s has the upper-case form \<open>STRASSE\<close>, which is therefore equal to it up to
  case; the store keeps usernames unique up to case; yet the lookup of \<open>STRASSE\<close>
  returns no user, because its lower-case form has two letters \<open>s\<close> where the stored
  name has the sharp s.
\<close>

theorem findUserByUsername_upper_case_counterexample:
  "usernamesUnique latinUsers \<and> userStrasse \<in> set latinUsers
   \<and> toUpperCase (username userStrasse) = Some ''STRASSE''
   \<and> equalUpToCase ''STRASSE'' (username userStrasse)
   \<and> toLowerCase ''STRASSE'' = ''strasse''
   \<and> toLowerCase (username userStrasse) = username userStrasse
   \<and> findUserByUsername latinUsers ''STRASSE'' = None
   \<and> findUserByUsername latinUsers ''STRASSE'' \<noteq> Some userStrasse"
proof -
  have u: "usernamesUnique latinUsers"
    unfolding latinUsers_def userAse_def userStrasse_def by code_simp
  have m: "userStrasse \<in> set latinUsers"
    by (simp add: latinUsers_def)
  have up: "toUpperCase (username userStrasse) = Some ''STRASSE''"
    unfolding userStrasse_def by code_simp
  have eq: "equalUpToCase ''STRASSE'' (username userStrasse)"
    unfolding userStrasse_def by code_simp
  have lo: "toLowerCase ''STRASSE'' = ''strasse''"
    by code_simp
  have same: "toLowerCase (username userStrasse) = username userStrasse"
    unfolding userStrasse_def by code_simp
  have none: "findUserByUsername latinUsers ''STRASSE'' = None"
    unfolding latinUsers_def userAse_def userStrasse_def by code_simp
  from u m up eq lo same none show ?thesis by simp
qed

text \<open>
  C10. A request without displayOrder (absent or null) stores the text block at
  displayOrder 0: after \<open>?? 0\<close> the value is never undefined or null, so the fallback
  to the maximum plus one is not taken, whatever the post already contains.
\<close>

theorem createText_omitted_displayOrder_is_zero:
  "(nullish (displayOrder body) (Defined 0) \<noteq> Undefined
      \<and> nullish (displayOrder body) (Defined 0) \<noteq> Null)
   \<and> ((displayOrder body = Undefined \<or> displayOrder body = Null) \<longrightarrow>
        determineDisplayOrder body db postId = Defined 0)
   \<and> ((displayOrder body = Undefined \<or> displayOrder body = Null)
        \<and> createText textId now user postIdParam body db = (Inr r, db') \<longrightarrow>
        resp_displayOrder r = 0
        \<and> (\<exists>row. text_content db' = text_content db @ [row] \<and> display_order row = 0
              \<and> tc_id row = textId))"
proof (intro conjI impI)
  show "nullish (displayOrder body) (Defined 0) \<noteq> Undefined"
    by (simp add: nullish_default_defined)
  show "nullish (displayOrder body) (Defined 0) \<noteq> Null"
    by (simp add: nullish_default_defined)
next
  assume "displayOrder body = Undefined \<or> displayOrder body = Null"
  then show "determineDisplayOrder body db postId = Defined 0"
    by (auto simp add: determineDisplayOrder_eq)
next
  assume h: "(displayOrder body = Undefined \<or> displayOrder body = Null)
        \<and> createText textId now user postIdParam body db = (Inr r, db')"
  then have z: "\<And>p. numberOf (determineDisplayOrder body db p) = 0"
    by (auto simp add: determineDisplayOrder_eq)
  from h obtain p where
    r: "r = \<lparr>resp_status = 201, resp_textId = textId, resp_content = stringOf (content body),
             resp_displayOrder = numberOf (determineDisplayOrder body db p), resp_createdAt = now\<rparr>"
    and d: "db' = touchPost now p (insertText \<lparr>tc_id = textId, tc_post_id = p,
                                  tc_content = stringOf (content body),
                                  display_order = numberOf (determineDisplayOrder body db p), section_name = ''main'',
                                  tc_created_at = now\<rparr> db)"
    using createText_success [of textId now user postIdParam body db r db'] by blast
  from r z show "resp_displayOrder r = 0" by simp
  from d z show "\<exists>row. text_content db' = text_content db @ [row] \<and> display_order row = 0
              \<and> tc_id row = textId"
    by (simp add: touchPost_def insertText_def)
qed

text \<open>
  Witness for C10: post \<open>p1\<close> already has a text block at order 5; a request without
  displayOrder stores the new block at order 0.
\<close>

theorem createText_omitted_displayOrder_is_zero_witness:
  "displayOrder bodyNoOrder = Undefined
   \<and> selectMaxOrder exampleDb ''p1'' = Some 5
   \<and> createText ''t2'' ''2025-11-17'' sessionAdmin (Some ''p1'') bodyNoOrder exampleDb
       = (Inr \<lparr>resp_status = 201, resp_textId = ''t2'', resp_content = ''more'',
               resp_displayOrder = 0, resp_createdAt = ''2025-11-17''\<rparr>,
          touchPost ''2025-11-17'' ''p1''
            (insertText \<lparr>tc_id = ''t2'', tc_post_id = ''p1'', tc_content = ''more'',
                         display_order = 0, section_name = ''main'',
                         tc_created_at = ''2025-11-17''\<rparr> exampleDb))
   \<and> (\<exists>row. text_content (snd (createText ''t2'' ''2025-11-17'' sessionAdmin (Some ''p1'')
                                    bodyNoOrder exampleDb))
              = text_content exampleDb @ [row] \<and> display_order row = 0 \<and> tc_id row = ''t2'')"
proof -
  have h: "displayOrder bodyNoOrder = Undefined"
    by (simp add: bodyNoOrder_def)
  have m: "selectMaxOrder exampleDb ''p1'' = Some 5"
    by (simp add: selectMaxOrder_def exampleDb_def)
  have c: "createText ''t2'' ''2025-11-17'' sessionAdmin (Some ''p1'') bodyNoOrder exampleDb
       = (Inr \<lparr>resp_status = 201, resp_textId = ''t2'', resp_content = ''more'',
               resp_displayOrder = 0, resp_createdAt = ''2025-11-17''\<rparr>,
          touchPost ''2025-11-17'' ''p1''
            (insertText \<lparr>tc_id = ''t2'', tc_post_id = ''p1'', tc_content = ''more'',
                         display_order = 0, section_name = ''main'',
                         tc_created_at = ''2025-11-17''\<rparr> exampleDb))"
    by (simp add: createText_def bodyNoOrder_def sessionAdmin_def selectAuthor_def
          determineDisplayOrder_def Let_def exampleDb_def)
  from createText_omitted_displayOrder_is_zero
         [of bodyNoOrder exampleDb "''p1''" "''t2''" "''2025-11-17''" sessionAdmin "Some ''p1''"
             "\<lparr>resp_status = 201, resp_textId = ''t2'', resp_content = ''more'',
               resp_displayOrder = 0, resp_createdAt = ''2025-11-17''\<rparr>"
             "touchPost ''2025-11-17'' ''p1''
            (insertText \<lparr>tc_id = ''t2'', tc_post_id = ''p1'', tc_content = ''more'',
                         display_order = 0, section_name = ''main'',
                         tc_created_at = ''2025-11-17''\<rparr> exampleDb)"] h c
  have "\<exists>row. text_content (touchPost ''2025-11-17'' ''p1''
            (insertText \<lparr>tc_id = ''t2'', tc_post_id = ''p1'', tc_content = ''more'',
                         display_order = 0, section_name = ''main'',
                         tc_created_at = ''2025-11-17''\<rparr> exampleDb))
              = text_content exampleDb @ [row] \<and> display_order row = 0 \<and> tc_id row = ''t2''"
    by simp
  with h m c show ?thesis by simp
qed

text \<open>
  C2 (amended). \<open>createText\<close> tests ownership only, \<open>post.author_id = user.sub\<close>; its
  result does not depend on the session's role. For an existing post and an otherwise valid request of a user
  who is not the author it throws \<open>UnauthorizedError\<close> (kind Unauthorized, status 401 in
  the taxonomy); whenever the user is not the author the request fails and the database
  is unchanged; a text block is created only for the author; and every failure leaves
  the database unchanged.
\<close>

theorem createText_checks_ownership:
  "(selectAuthor db postId = Some author \<and> author \<noteq> sub user \<and> postId \<noteq> []
      \<and> truthy (content body) \<and> isString (content body) \<longrightarrow>
      createText textId now user (Some postId) body db
        = (Inl (UnauthorizedError ''You do not have permission to add text to this post''), db)
      \<and> errorKind (UnauthorizedError ''You do not have permission to add text to this post'')
          = Unauthorized
      \<and> httpStatus Unauthorized = 401)
   \<and> (selectAuthor db postId = Some author \<and> author \<noteq> sub user \<longrightarrow>
        (\<exists>e. createText textId now user (Some postId) body db = (Inl e, db)))
   \<and> (createText textId now user postIdParam body db = (Inr r, db') \<longrightarrow>
        (\<exists>pid. postIdParam = Some pid \<and> selectAuthor db pid = Some (sub user)))
   \<and> (fst (createText textId now user postIdParam body db) = Inl e \<longrightarrow>
        snd (createText textId now user postIdParam body db) = db)
   \<and> createText textId now (user\<lparr>session_role := anyRole\<rparr>) postIdParam body db
       = createText textId now user postIdParam body db"
proof (intro conjI impI)
  assume "selectAuthor db postId = Some author \<and> author \<noteq> sub user \<and> postId \<noteq> []
      \<and> truthy (content body) \<and> isString (content body)"
  then show "createText textId now user (Some postId) body db
        = (Inl (UnauthorizedError ''You do not have permission to add text to this post''), db)"
    by (simp add: createText_def)
next
  show "errorKind (UnauthorizedError ''You do not have permission to add text to this post'')
          = Unauthorized"
    by simp
  show "httpStatus Unauthorized = 401"
    by simp
next
  assume "selectAuthor db postId = Some author \<and> author \<noteq> sub user"
  then show "\<exists>e. createText textId now user (Some postId) body db = (Inl e, db)"
    by (simp add: createText_def)
next
  assume "createText textId now user postIdParam body db = (Inr r, db')"
  then show "\<exists>pid. postIdParam = Some pid \<and> selectAuthor db pid = Some (sub user)"
    using createText_success [of textId now user postIdParam body db r db'] by blast
next
  assume "fst (createText textId now user postIdParam body db) = Inl e"
  then show "snd (createText textId now user postIdParam body db) = db"
    by (rule createText_error_keeps_db)
next
  show "createText textId now (user\<lparr>session_role := anyRole\<rparr>) postIdParam body db
       = createText textId now user postIdParam body db"
    by (simp add: createText_def split: option.split)
qed

text \<open>
  Witness for C2 (amended): another contributor on post \<open>p1\<close> of \<open>admin\<close>.
\<close>

theorem createText_checks_ownership_witness:
  "selectAuthor exampleDb ''p1'' = Some ''admin'' \<and> ''admin'' \<noteq> sub sessionOther
   \<and> ''p1'' \<noteq> [] \<and> truthy (content bodyNoOrder) \<and> isString (content bodyNoOrder)
   \<and> createText ''t2'' ''2025-11-17'' sessionOther (Some ''p1'') bodyNoOrder exampleDb
        = (Inl (UnauthorizedError ''You do not have permission to add text to this post''),
           exampleDb)"
proof -
  have h: "selectAuthor exampleDb ''p1'' = Some ''admin'' \<and> ''admin'' \<noteq> sub sessionOther
     \<and> ''p1'' \<noteq> [] \<and> truthy (content bodyNoOrder) \<and> isString (content bodyNoOrder)"
    by (simp add: selectAuthor_def exampleDb_def sessionOther_def bodyNoOrder_def)
  with createText_checks_ownership
         [of exampleDb "''p1''" "''admin''" sessionOther bodyNoOrder "''t2''" "''2025-11-17''"]
  show ?thesis by blast
qed

text \<open>
  Counterexample for C2 as stated: a contributor who is not the author of post \<open>p1\<close>
  has a false \<open>canModify\<close>, and the request fails with \<open>UnauthorizedError\<close>, whose
  kind is not Forbidden and whose status is 401, not 403.
\<close>

theorem createText_forbidden_counterexample:
  "\<not> canModify sessionOther (hd (blog_posts exampleDb))
   \<and> createText ''t2'' ''2025-11-17'' sessionOther (Some ''p1'') bodyNoOrder exampleDb
       = (Inl (UnauthorizedError ''You do not have permission to add text to this post''),
          exampleDb)
   \<and> errorKind (UnauthorizedError ''You do not have permission to add text to this post'')
       \<noteq> Forbidden
   \<and> httpStatus (errorKind
         (UnauthorizedError ''You do not have permission to add text to this post'')) = 401
   \<and> httpStatus (errorKind
         (UnauthorizedError ''You do not have permission to add text to this post''))
       \<noteq> httpStatus Forbidden"
  by (simp add: canModify_def createText_def bodyNoOrder_def sessionOther_def
        selectAuthor_def exampleDb_def)

text \<open>
  C3. Listing with status published returns only published posts, the same for every
  caller; the total is the number of published posts, and a first page that is large
  enough holds exactly the published posts. A contributor listing with status all
  receives only posts they authored. Under every filter, a draft in the result is the
  caller's own.
\<close>

theorem listPosts_hides_drafts:
  "(\<forall>p \<in> set (posts (listPosts repo callerRole callerId
                \<lparr>filter_status = OnlyPublished, filter_limit = l, filter_offset = off\<rparr>)).
       bp_status p = Published)
   \<and> listPosts repo callerRole callerId
        \<lparr>filter_status = OnlyPublished, filter_limit = l, filter_offset = off\<rparr>
      = listPosts repo otherRole otherId
        \<lparr>filter_status = OnlyPublished, filter_limit = l, filter_offset = off\<rparr>
   \<and> page_total (pagination (listPosts repo callerRole callerId
                \<lparr>filter_status = OnlyPublished, filter_limit = l, filter_offset = off\<rparr>))
      = length (filter (\<lambda>p. bp_status p = Published) (repo_posts repo))
   \<and> (length (filter (\<lambda>p. bp_status p = Published) (repo_posts repo)) \<le> l \<longrightarrow>
        mset (posts (listPosts repo callerRole callerId
                \<lparr>filter_status = OnlyPublished, filter_limit = l, filter_offset = 0\<rparr>))
        = mset (filter (\<lambda>p. bp_status p = Published) (repo_posts repo)))
   \<and> (\<forall>p \<in> set (posts (listPosts repo Contributor callerId
                \<lparr>filter_status = AllStatuses, filter_limit = l, filter_offset = off\<rparr>)).
        author_id p = callerId)
   \<and> (\<forall>p \<in> set (posts (listPosts repo callerRole callerId filters)).
        bp_status p = Draft \<longrightarrow> author_id p = callerId)"
proof (intro conjI ballI impI)
  fix p
  assume "p \<in> set (posts (listPosts repo callerRole callerId
                \<lparr>filter_status = OnlyPublished, filter_limit = l, filter_offset = off\<rparr>))"
  then show "bp_status p = Published"
    using listPosts_subset [of repo callerRole callerId
            "\<lparr>filter_status = OnlyPublished, filter_limit = l, filter_offset = off\<rparr>"]
    by (auto simp add: visibleTo_def)
next
  show "listPosts repo callerRole callerId
        \<lparr>filter_status = OnlyPublished, filter_limit = l, filter_offset = off\<rparr>
      = listPosts repo otherRole otherId
        \<lparr>filter_status = OnlyPublished, filter_limit = l, filter_offset = off\<rparr>"
    by (simp add: listPosts_def visibleTo_published)
next
  show "page_total (pagination (listPosts repo callerRole callerId
                \<lparr>filter_status = OnlyPublished, filter_limit = l, filter_offset = off\<rparr>))
      = length (filter (\<lambda>p. bp_status p = Published) (repo_posts repo))"
    by (simp add: listPosts_def visibleTo_published Let_def)
next
  assume "length (filter (\<lambda>p. bp_status p = Published) (repo_posts repo)) \<le> l"
  then have "length (sortPosts (filter (\<lambda>p. bp_status p = Published) (repo_posts repo))) \<le> l"
    using mset_sortPosts [of "filter (\<lambda>p. bp_status p = Published) (repo_posts repo)"]
    by (metis size_mset)
  then show "mset (posts (listPosts repo callerRole callerId
                \<lparr>filter_status = OnlyPublished, filter_limit = l, filter_offset = 0\<rparr>))
        = mset (filter (\<lambda>p. bp_status p = Published) (repo_posts repo))"
    by (simp add: listPosts_def visibleTo_published Let_def mset_sortPosts)
next
  fix p
  assume "p \<in> set (posts (listPosts repo Contributor callerId
                \<lparr>filter_status = AllStatuses, filter_limit = l, filter_offset = off\<rparr>))"
  then show "author_id p = callerId"
    using listPosts_subset [of repo Contributor callerId
            "\<lparr>filter_status = AllStatuses, filter_limit = l, filter_offset = off\<rparr>"]
    by (auto simp add: visibleTo_def)
next
  fix p
  assume "p \<in> set (posts (listPosts repo callerRole callerId filters))"
    and "bp_status p = Draft"
  then show "author_id p = callerId"
    using listPosts_subset [of repo callerRole callerId filters]
    by (auto simp add: visibleTo_def split: if_splits)
qed

text \<open>
  Witness for C3: two drafts and two published posts; a reader receives the two
  published posts, newest first, and the contributor \<open>admin\<close> listing all receives
  their own two posts.
\<close>

theorem listPosts_hides_drafts_witness:
  "posts (listPosts exampleRepo Reader ''leser''
           \<lparr>filter_status = OnlyPublished, filter_limit = 20, filter_offset = 0\<rparr>)
       = [postOf ''p4'' ''testcontributor'' Published ''2025-11-12'' (Some ''2025-11-17''),
          postOf ''p2'' ''admin'' Published ''2025-11-10'' (Some ''2025-11-15'')]
   \<and> length (filter (\<lambda>p. bp_status p = Published) (repo_posts exampleRepo)) = 2
   \<and> length (filter (\<lambda>p. bp_status p = Draft) (repo_posts exampleRepo)) = 2
   \<and> map bp_status (posts (listPosts exampleRepo Reader ''leser''
           \<lparr>filter_status = OnlyPublished, filter_limit = 20, filter_offset = 0\<rparr>))
       = [Published, Published]
   \<and> posts (listPosts exampleRepo Contributor ''admin''
           \<lparr>filter_status = AllStatuses, filter_limit = 20, filter_offset = 0\<rparr>)
       = [postOf ''p2'' ''admin'' Published ''2025-11-10'' (Some ''2025-11-15''),
          postOf ''p1'' ''admin'' Draft ''2025-11-14'' None]
   \<and> map author_id (posts (listPosts exampleRepo Contributor ''admin''
           \<lparr>filter_status = AllStatuses, filter_limit = 20, filter_offset = 0\<rparr>))
       = [''admin'', ''admin'']"
proof -
  have 1: "posts (listPosts exampleRepo Reader ''leser''
           \<lparr>filter_status = OnlyPublished, filter_limit = 20, filter_offset = 0\<rparr>)
       = [postOf ''p4'' ''testcontributor'' Published ''2025-11-12'' (Some ''2025-11-17''),
          postOf ''p2'' ''admin'' Published ''2025-11-10'' (Some ''2025-11-15'')]"
    by (simp add: listPosts_def Let_def exampleRepo_def visibleTo_def postOf_def sortPosts_def
        listedBefore_def orderingKey_def)
  have 2: "posts (listPosts exampleRepo Contributor ''admin''
           \<lparr>filter_status = AllStatuses, filter_limit = 20, filter_offset = 0\<rparr>)
       = [postOf ''p2'' ''admin'' Published ''2025-11-10'' (Some ''2025-11-15''),
          postOf ''p1'' ''admin'' Draft ''2025-11-14'' None]"
    by (simp add: listPosts_def Let_def exampleRepo_def visibleTo_def postOf_def sortPosts_def
        listedBefore_def orderingKey_def)
  have 3: "length (filter (\<lambda>p. bp_status p = Published) (repo_posts exampleRepo)) = 2"
    "length (filter (\<lambda>p. bp_status p = Draft) (repo_posts exampleRepo)) = 2"
    by (simp_all add: exampleRepo_def postOf_def)
  from listPosts_hides_drafts [of exampleRepo Reader "''leser''" 20 0]
  have 4: "\<forall>p \<in> set (posts (listPosts exampleRepo Reader ''leser''
           \<lparr>filter_status = OnlyPublished, filter_limit = 20, filter_offset = 0\<rparr>)).
         bp_status p = Published"
    by blast
  from listPosts_hides_drafts [of exampleRepo Contributor "''admin''" 20 0]
  have 5: "\<forall>p \<in> set (posts (listPosts exampleRepo Contributor ''admin''
           \<lparr>filter_status = AllStatuses, filter_limit = 20, filter_offset = 0\<rparr>)).
         author_id p = ''admin''"
    by blast
  from 4 have 6: "map bp_status (posts (listPosts exampleRepo Reader ''leser''
           \<lparr>filter_status = OnlyPublished, filter_limit = 20, filter_offset = 0\<rparr>))
       = [Published, Published]"
    by (simp add: 1)
  from 5 have 7: "map author_id (posts (listPosts exampleRepo Contributor ''admin''
           \<lparr>filter_status = AllStatuses, filter_limit = 20, filter_offset = 0\<rparr>))
       = [''admin'', ''admin'']"
    by (simp add: 2)
  from 1 2 3 6 7 show ?thesis by simp
qed



text \<open>
  C5. A login for an unknown username and a login for a stored username with a wrong
  password give the same response: status 401 and the same body, with error kind
  InvalidCredentials and the generic message.
\<close>

theorem login_failures_indistinguishable:
  assumes "unknownUser users r1" and "wrongPassword users verify r2"
  shows "handleLogin users verify now1 r1 = handleLogin users verify now2 r2
     \<and> handleLogin users verify now1 r1
         = LoginFailed 401 \<lparr>body_success = False, body_error = InvalidCredentials,
                             body_message = ''Invalid username or password''\<rparr>"
  using handleLogin_unknown [OF assms(1)] handleLogin_wrong [OF assms(2)]
  by (simp add: errorResponse_def)

text \<open>
  Witness for C5: \<open>nonexistent\<close> against \<open>leser\<close> with a wrong password.
\<close>

theorem login_failures_indistinguishable_witness:
  "unknownUser exampleUsers reqUnknown \<and> wrongPassword exampleUsers exampleVerify reqWrong
   \<and> handleLogin exampleUsers exampleVerify 1000 reqUnknown
       = handleLogin exampleUsers exampleVerify 2000 reqWrong"
proof -
  have a: "unknownUser exampleUsers reqUnknown"
    by (simp add: unknownUser_def reqUnknown_def find_unknown)
  have b: "wrongPassword exampleUsers exampleVerify reqWrong"
    by (simp add: wrongPassword_def reqWrong_def find_leser userLeser_def
          exampleVerify_def)
  from login_failures_indistinguishable [OF a b, of 1000 2000] a b
  show ?thesis by simp
qed

text \<open>
  C6. For valid credentials the login succeeds with status 200; the token's lifetime
  \<open>expiresAt - issuedAt\<close> is exactly 604800 seconds with rememberMe and 86400 seconds
  without, and the cookie's Max-Age is the same number.
\<close>

theorem login_token_lifetime:
  assumes "validCredentials users verify req"
  shows "\<exists>body cookie.
           handleLogin users verify now req = LoginOk 200 body cookie
           \<and> expiresAt (cookie_token cookie) - issuedAt (cookie_token cookie)
               = (if req_rememberMe req then 604800 else 86400)
           \<and> cookie_maxAge cookie = (if req_rememberMe req then 604800 else 86400)
           \<and> issuedAt (cookie_token cookie) = now
           \<and> login_expiresAt body = expiresAt (cookie_token cookie)
           \<and> cookie_httpOnly cookie \<and> cookie_secure cookie
           \<and> cookie_sameSite cookie = ''Strict''"
proof -
  from assms obtain u p usr where h: "req_username req = Some u" "req_password req = Some p"
      "u \<noteq> []" "p \<noteq> []" "findUserByUsername users u = Some usr"
      "verify p (passwordHash usr)"
    by (auto simp add: validCredentials_def split: option.splits)
  let ?tok = "issueToken usr now (req_rememberMe req)"
  let ?body = "\<lparr>login_success = True, login_username = username usr,
                 login_role = role usr, login_expiresAt = expiresAt ?tok\<rparr>"
  let ?cookie = "sessionCookie ?tok (req_rememberMe req)"
  have "handleLogin users verify now req = LoginOk 200 ?body ?cookie"
    using h by (simp add: handleLogin_def Let_def)
  moreover have "expiresAt (cookie_token ?cookie) - issuedAt (cookie_token ?cookie)
               = (if req_rememberMe req then 604800 else 86400)"
    by (simp add: sessionCookie_def issueToken_def sessionDuration_def)
  moreover have "cookie_maxAge ?cookie = (if req_rememberMe req then 604800 else 86400)"
    by (simp add: sessionCookie_def sessionDuration_def)
  moreover have "issuedAt (cookie_token ?cookie) = now"
    by (simp add: sessionCookie_def issueToken_def)
  moreover have "login_expiresAt ?body = expiresAt (cookie_token ?cookie)"
    by (simp add: sessionCookie_def)
  moreover have "cookie_httpOnly ?cookie \<and> cookie_secure ?cookie
           \<and> cookie_sameSite ?cookie = ''Strict''"
    by (simp add: sessionCookie_def)
  ultimately show ?thesis by blast
qed

text \<open>
  Witness for C6: \<open>LESER\<close> logs in with rememberMe; lifetime and Max-Age are 604800.
\<close>

theorem login_token_lifetime_witness:
  "validCredentials exampleUsers exampleVerify reqValid
   \<and> (\<exists>body cookie.
         handleLogin exampleUsers exampleVerify 1000 reqValid = LoginOk 200 body cookie
         \<and> expiresAt (cookie_token cookie) - issuedAt (cookie_token cookie) = 604800
         \<and> cookie_maxAge cookie = 604800)"
proof -
  have a: "validCredentials exampleUsers exampleVerify reqValid"
    by (simp add: validCredentials_def reqValid_def find_LESER userLeser_def
          exampleVerify_def)
  have r: "req_rememberMe reqValid"
    by (simp add: reqValid_def)
  from login_token_lifetime [OF a, of 1000] r
  have "\<exists>body cookie.
         handleLogin exampleUsers exampleVerify 1000 reqValid = LoginOk 200 body cookie
         \<and> expiresAt (cookie_token cookie) - issuedAt (cookie_token cookie) = 604800
         \<and> cookie_maxAge cookie = 604800"
    by auto
  with a show ?thesis by simp
qed

text \<open>
  C7. A successful reorder with a target of distinct items gives the item at position
  \<open>i\<close> the displayOrder \<open>i\<close>, so the new values increase strictly along the target;
  a failed reorder leaves the repository as it was before the call; hence the repository
  after the call is either unchanged or carries the new value on every item of the
  target, never a mixture.
\<close>

theorem reorder_all_or_nothing:
  "(reorderContent repo user postId orderedIds = (Inr (), repo') \<and> distinct orderedIds \<longrightarrow>
      (\<forall>i. i < length orderedIds \<longrightarrow>
           orderOf repo' postId (orderedIds ! i) = Some (of_nat i))
      \<and> (\<forall>i j. i < j \<and> j < length orderedIds \<longrightarrow>
           (\<exists>a b. orderOf repo' postId (orderedIds ! i) = Some a
                \<and> orderOf repo' postId (orderedIds ! j) = Some b \<and> a < b)))
   \<and> (fst (reorderContent repo user postId orderedIds) = Inl e \<longrightarrow>
        snd (reorderContent repo user postId orderedIds) = repo)
   \<and> (distinct orderedIds \<longrightarrow>
        snd (reorderContent repo user postId orderedIds) = repo
        \<or> (\<forall>i. i < length orderedIds \<longrightarrow>
              orderOf (snd (reorderContent repo user postId orderedIds)) postId (orderedIds ! i)
                = Some (of_nat i)))"
proof -
  have assigned: "\<forall>i. i < length orderedIds \<longrightarrow> orderOf r postId (orderedIds ! i) = Some (of_nat i)"
    if "reorderContent repo user postId orderedIds = (Inr u, r)" and "distinct orderedIds"
    for u r
  proof -
    from reorderContent_success [OF that(1)] obtain items where
      a: "applyOrdering postId orderedIds 0 (repo_items repo) = Some items"
      and r: "r = repo\<lparr>repo_items := items\<rparr>"
      by blast
    show ?thesis
      using applyOrdering_assigns [OF a that(2)] by (simp add: orderOf_def r)
  qed
  have increasing: "\<forall>i j. i < j \<and> j < length orderedIds \<longrightarrow>
           (\<exists>a b. orderOf r postId (orderedIds ! i) = Some a
                \<and> orderOf r postId (orderedIds ! j) = Some b \<and> a < b)"
    if "\<forall>i. i < length orderedIds \<longrightarrow> orderOf r postId (orderedIds ! i) = Some (of_nat i)"
    for r
  proof (intro allI impI)
    fix i j
    assume ij: "i < j \<and> j < length orderedIds"
    then have "orderOf r postId (orderedIds ! i) = Some (of_nat i)"
      and "orderOf r postId (orderedIds ! j) = Some (of_nat j)"
      using that by simp_all
    moreover from ij have "(of_nat i :: rat) < of_nat j" by simp
    ultimately show "\<exists>a b. orderOf r postId (orderedIds ! i) = Some a
                \<and> orderOf r postId (orderedIds ! j) = Some b \<and> a < b"
      by blast
  qed
  have third: "snd (reorderContent repo user postId orderedIds) = repo
        \<or> (\<forall>i. i < length orderedIds \<longrightarrow>
              orderOf (snd (reorderContent repo user postId orderedIds)) postId (orderedIds ! i)
                = Some (of_nat i))"
    if d: "distinct orderedIds"
  proof (cases "fst (reorderContent repo user postId orderedIds)")
    case (Inl e')
    then have "snd (reorderContent repo user postId orderedIds) = repo"
      by (rule reorderContent_failure)
    then show ?thesis by simp
  next
    case (Inr u)
    then have "reorderContent repo user postId orderedIds
                 = (Inr u, snd (reorderContent repo user postId orderedIds))"
      by (simp add: prod_eq_iff)
    from assigned [OF this d] show ?thesis by simp
  qed
  show ?thesis
  proof (intro conjI impI)
    assume h: "reorderContent repo user postId orderedIds = (Inr (), repo') \<and> distinct orderedIds"
    then show a: "\<forall>i. i < length orderedIds \<longrightarrow>
           orderOf repo' postId (orderedIds ! i) = Some (of_nat i)"
      using assigned [of "()" repo'] by simp
    show "\<forall>i j. i < j \<and> j < length orderedIds \<longrightarrow>
           (\<exists>a b. orderOf repo' postId (orderedIds ! i) = Some a
                \<and> orderOf repo' postId (orderedIds ! j) = Some b \<and> a < b)"
      by (rule increasing [OF a])
  next
    assume "fst (reorderContent repo user postId orderedIds) = Inl e"
    then show "snd (reorderContent repo user postId orderedIds) = repo"
      by (rule reorderContent_failure)
  next
    assume "distinct orderedIds"
    then show "snd (reorderContent repo user postId orderedIds) = repo
        \<or> (\<forall>i. i < length orderedIds \<longrightarrow>
              orderOf (snd (reorderContent repo user postId orderedIds)) postId (orderedIds ! i)
                = Some (of_nat i))"
      by (rule third)
  qed
qed

text \<open>
  Witness for C7: reordering post \<open>p1\<close> to video, photo, text assigns 0, 1, 2; a
  target whose second item is missing fails after the first update has succeeded in the
  transaction, and the repository is unchanged.
\<close>

theorem reorder_all_or_nothing_witness:
  "fst (reorderContent exampleRepo sessionAdmin ''p1'' goodOrder) = Inr ()
   \<and> distinct goodOrder
   \<and> orderOf (snd (reorderContent exampleRepo sessionAdmin ''p1'' goodOrder)) ''p1'' (VideoType, ''c'') = Some 0
   \<and> orderOf (snd (reorderContent exampleRepo sessionAdmin ''p1'' goodOrder)) ''p1'' (PhotoType, ''a'') = Some 1
   \<and> orderOf (snd (reorderContent exampleRepo sessionAdmin ''p1'' goodOrder)) ''p1'' (TextType, ''b'') = Some 2
   \<and> setDisplayOrder ''p1'' (VideoType, ''c'') 0 (repo_items exampleRepo) \<noteq> None
   \<and> fst (reorderContent exampleRepo sessionAdmin ''p1'' badOrder) = Inl InvalidInput
   \<and> snd (reorderContent exampleRepo sessionAdmin ''p1'' badOrder) = exampleRepo"
proof -
  let ?r = "snd (reorderContent exampleRepo sessionAdmin ''p1'' goodOrder)"
  have ok: "fst (reorderContent exampleRepo sessionAdmin ''p1'' goodOrder) = Inr ()"
    by (simp add: reorderContent_def exampleRepo_def postOf_def sessionAdmin_def canModify_def
          goodOrder_def setDisplayOrder_def refersTo_def itemType_def)
  then have eq: "reorderContent exampleRepo sessionAdmin ''p1'' goodOrder = (Inr (), ?r)"
    by (simp add: prod_eq_iff)
  have d: "distinct goodOrder"
    by (simp add: goodOrder_def)
  have first: "setDisplayOrder ''p1'' (VideoType, ''c'') 0 (repo_items exampleRepo) \<noteq> None"
    by (simp add: setDisplayOrder_def exampleRepo_def refersTo_def itemType_def)
  have bad: "fst (reorderContent exampleRepo sessionAdmin ''p1'' badOrder) = Inl InvalidInput"
    by (simp add: reorderContent_def exampleRepo_def postOf_def sessionAdmin_def canModify_def
          badOrder_def setDisplayOrder_def refersTo_def itemType_def)
  note t = reorder_all_or_nothing [of exampleRepo sessionAdmin "''p1''" goodOrder ?r _]
  from t eq d have all: "\<forall>i. i < length goodOrder \<longrightarrow>
           orderOf ?r ''p1'' (goodOrder ! i) = Some (of_nat i)"
    by blast
  have l: "length goodOrder = 3"
    by (simp add: goodOrder_def)
  from all l have "orderOf ?r ''p1'' (goodOrder ! 0) = Some (of_nat 0)"
    and "orderOf ?r ''p1'' (goodOrder ! 1) = Some (of_nat 1)"
    and "orderOf ?r ''p1'' (goodOrder ! 2) = Some (of_nat 2)"
    by simp_all
  then have o: "orderOf ?r ''p1'' (VideoType, ''c'') = Some 0"
    "orderOf ?r ''p1'' (PhotoType, ''a'') = Some 1"
    "orderOf ?r ''p1'' (TextType, ''b'') = Some 2"
    by (simp_all add: goodOrder_def)
  from reorder_all_or_nothing [of exampleRepo sessionAdmin "''p1''" badOrder _ InvalidInput] bad
  have unchanged: "snd (reorderContent exampleRepo sessionAdmin ''p1'' badOrder) = exampleRepo"
    by blast
  from ok d o first bad unchanged show ?thesis by simp
qed

end
